theory Spec2Isabelle
  imports Main "HOL-Library.Word"
begin

section \<open>The DSRF flat-file parser (parsers/dsrf\_file\_parser.py)\<close>

text \<open>
  The parser reads tokenized lines (the fields that \<open>csv.reader\<close> yields for each
  physical line of the file) and yields \<open>Block\<close> messages. The embedding follows
  \<open>DSRFFileParser\<close> method by method. Python exceptions are values of the sum type
  \<open>exn + 'a\<close>; the generator \<open>parse_file\<close> is modelled by the list of Blocks it has
  yielded, the errors it has logged, and the exception (if any) that ended it.
\<close>

subsection \<open>Strings and Python built-ins\<close>

type_synonym line = "string list"

text \<open>\<open>str.upper()\<close> on a byte string: the ASCII letters a..z are mapped to A..Z.\<close>

definition upper_char :: "char \<Rightarrow> char" where
  "upper_char c =
     (let n = (of_char c :: nat) in if 97 \<le> n \<and> n \<le> 122 then char_of (n - 32) else c)"

definition upper :: "string \<Rightarrow> string" where
  "upper s = map upper_char s"

text \<open>\<open>s.startswith(p)\<close>.\<close>

definition startswith :: "string \<Rightarrow> string \<Rightarrow> bool" where
  "startswith s p = (take (length p) s = p)"

text \<open>
  \<open>int(s)\<close> on a string, base 10: surrounding whitespace is stripped, an optional sign
  follows, then one or more decimal digits. \<open>None\<close> stands for \<open>ValueError\<close>.
\<close>

definition is_space :: "char \<Rightarrow> bool" where
  "is_space c = ((of_char c :: nat) \<in> {9, 10, 11, 12, 13, 32})"

definition strip :: "string \<Rightarrow> string" where
  "strip s = rev (dropWhile is_space (rev (dropWhile is_space s)))"

definition is_digit :: "char \<Rightarrow> bool" where
  "is_digit c = (let n = (of_char c :: nat) in 48 \<le> n \<and> n \<le> 57)"

definition digit_val :: "char \<Rightarrow> int" where
  "digit_val c = int (of_char c) - 48"

definition digits_int :: "string \<Rightarrow> int option" where
  "digits_int ds =
     (if ds \<noteq> [] \<and> list_all is_digit ds
      then Some (foldl (\<lambda>acc c. 10 * acc + digit_val c) 0 ds) else None)"

definition py_int :: "string \<Rightarrow> int option" where
  "py_int s =
     (case strip s of
        [] \<Rightarrow> None
      | c # r \<Rightarrow>
          if c = CHR ''-'' then map_option uminus (digits_int r)
          else if c = CHR ''+'' then digits_int r
          else digits_int (c # r))"

text \<open>\<open>xs[i]\<close> for a non-negative index: \<open>None\<close> stands for \<open>IndexError\<close>.\<close>

definition item :: "'a list \<Rightarrow> nat \<Rightarrow> 'a option" where
  "item xs i = (if i < length xs then Some (xs ! i) else None)"

subsection \<open>constants.py\<close>

definition COMMENT_SIGN :: string where
  "COMMENT_SIGN = ''#''"

definition HEAD_ROWS :: "string list" where
  "HEAD_ROWS = [''HEAD'', ''SY01'', ''SY02'', ''SY03'', ''SY04'', ''FHEA'']"

definition FOOT_ROWS :: "string list" where
  "FOOT_ROWS = [''FOOT'', ''FFOO'']"

subsection \<open>Exceptions\<close>

text \<open>
  Modelled from the spec: the module \<open>dsrf.error\<close> with the exception classes is
  missing. A row-level validation failure (unknown row type, empty record, non-integer
  block identifier, a cell validator rejecting its input) is recoverable: it is caught
  at the line and reported. So \<open>error.RowValidationFailure(row_number, file_name,
  message)\<close>, which the parser raises inside the \<open>try\<close> of \<open>parse_file\<close>, and the
  failure that a cell validator raises are instances of \<open>error.ValidationError\<close>,
  which \<open>parse_file\<close> catches. The built-in exceptions are not.

  A message is kept as its format template together with the values formatted into it:
  \<^item> \<open>EmptyRecord\<close>: 'It is not permissible to include empty Records.'
  \<^item> \<open>UnknownRowType t ks\<close>: 'Row type t does not exist in the XSD. Valid row types are: ks. '
  \<^item> \<open>BlockIdNotInteger v n\<close>: 'The block id "v" in line number n was expected to be an integer.'
\<close>

datatype message =
    EmptyRecord
  | UnknownRowType string "string list"
  | BlockIdNotInteger string nat

datatype exn =
    RowValidationFailure nat string message
  | CellValidationFailure nat string string
  | IndexError
  | ValueError
  | KeyError
  | TypeError

fun is_ValidationError :: "exn \<Rightarrow> bool" where
  "is_ValidationError (RowValidationFailure _ _ _) = True"
| "is_ValidationError (CellValidationFailure _ _ _) = True"
| "is_ValidationError _ = False"

subsection \<open>Protocol buffer messages\<close>

text \<open>
  Modelled from the spec: the generated modules \<open>cell_pb2\<close>, \<open>row_pb2\<close> and
  \<open>block_pb2\<close> with the message declarations are missing. A Cell has a name, a cell
  type (STRING, INTEGER, DECIMAL or BOOLEAN) and values; a Row has a type, a row number
  and Cells; a Block has a type, a number, a version, a file number and Rows. The
  records have these fields under the names the parser uses; the values of a Cell are
  the four repeated fields \<open>string_value\<close>, \<open>integer_value\<close>, \<open>decimal_value\<close> and
  \<open>boolean_value\<close> that \<open>get_cell_object\<close> extends. Integer fields are unbounded (the
  range check of the protobuf runtime on assignment is not modelled); strings are byte
  strings, carried unchanged.

  A Python value that a cell validator may return: \<open>None\<close>, a string, an integer, a
  float (carried as its 64-bit pattern: the parser never computes with it), a boolean,
  or a list of such values.
\<close>

type_synonym pyfloat = "64 word"

datatype pyval =
    PNone
  | PStr string
  | PInt int
  | PFloat pyfloat
  | PBool bool
  | PList "pyval list"

datatype cell_type = STRING | INTEGER | DECIMAL | BOOLEAN

record cell =
  name :: string
  cell_type :: cell_type
  string_value :: "string list"
  integer_value :: "int list"
  decimal_value :: "pyfloat list"
  boolean_value :: "bool list"

text \<open>\<open>Row.type\<close> is the field \<open>rtype\<close>, \<open>Block.type\<close> the field \<open>btype\<close>.\<close>

record row =
  rtype :: string
  row_number :: nat
  cells :: "cell list"

record block =
  btype :: int
  number :: int
  version :: string
  file_number :: int
  rows :: "row list"

text \<open>
  What the parser uses of the generated code and of the protobuf runtime, taken as a
  parameter:
  \<^item> \<open>HEAD\<close>, \<open>BODY\<close>, \<open>FOOT\<close>: the numbers of the enum constants \<open>block_pb2.HEAD\<close>,
    \<open>block_pb2.BODY\<close>, \<open>block_pb2.FOOT\<close>;
  \<^item> \<open>default_type\<close>: the value that \<open>type\<close> reads on a Block to which no type has
    been assigned;
  \<^item> \<open>string_item\<close>, \<open>integer_item\<close>, \<open>decimal_item\<close>, \<open>boolean_item\<close>: the check (and
    conversion) that the runtime applies to each value appended to the repeated field
    \<open>string_value\<close>, \<open>integer_value\<close>, \<open>decimal_value\<close>, \<open>boolean_value\<close> of a Cell;
    \<open>None\<close> stands for the \<open>TypeError\<close> of a rejected value.
\<close>

record pb2 =
  HEAD :: int
  BODY :: int
  FOOT :: int
  default_type :: int
  string_item :: "pyval \<Rightarrow> string option"
  integer_item :: "pyval \<Rightarrow> int option"
  decimal_item :: "pyval \<Rightarrow> pyfloat option"
  boolean_item :: "pyval \<Rightarrow> bool option"

text \<open>
  The comment in \<open>is_end_of_block\<close> documents the encoding: "new blocks default type is
  HEAD". With it, \<open>not current_block.type\<close> in \<open>parse_file\<close> holds exactly of a Block
  whose type reads \<open>HEAD\<close>, so \<open>HEAD\<close> is the enum's zero.
\<close>

definition head_is_default :: "pb2 \<Rightarrow> bool" where
  "head_is_default pb \<longleftrightarrow>
     default_type pb = HEAD pb \<and> HEAD pb = 0 \<and> BODY pb \<noteq> 0 \<and> FOOT pb \<noteq> 0 \<and> BODY pb \<noteq> FOOT pb"

text \<open>
  \<open>block_pb2.Block(file_number=file_number)\<close>: the type reads the default, the number
  is 0, the version is empty and there are no Rows.
\<close>

definition new_block :: "pb2 \<Rightarrow> int \<Rightarrow> block" where
  "new_block pb file_no =
     \<lparr>btype = default_type pb, number = 0, version = [], file_number = file_no, rows = []\<rparr>"

subsection \<open>Cell validators\<close>

text \<open>
  The argument \<open>block_number\<close> of \<open>validate_value\<close> is whatever \<open>parse_file\<close> hands to
  \<open>get_row_object\<close>: a row type (a string) or a block number (an integer).
\<close>

datatype block_ref = RowTypeName string | BlockNumber int

text \<open>
  A cell validator (a subclass of \<open>cell_validators.BaseCellValidator\<close>, a module that
  is missing) is taken as a parameter. The parser uses it through \<open>cell_name\<close>,
  \<open>get_cell_type()\<close> and \<open>validate_value(cell_content, row_number, file_name,
  block_number)\<close>, which returns a value or raises. A row validator is a list of validators, with \<open>None\<close> at the
  positions that are not validated.
\<close>

record validator =
  cell_name :: string
  get_cell_type :: cell_type
  validate_value :: "string \<Rightarrow> nat \<Rightarrow> string \<Rightarrow> block_ref \<Rightarrow> exn + pyval"

type_synonym row_validator = "validator option list"

text \<open>
  \<open>row_validators_list\<close> is a dictionary from row type to row validator: an association
  list, read with \<open>map_of\<close>; \<open>keys()\<close> is \<open>map fst\<close>.
\<close>

type_synonym row_validators = "(string \<times> row_validator) list"

subsection \<open>DSRFFileParser\<close>

text \<open>\<open>get_block_number\<close>, lines 41-57. The handler evaluates \<open>line[1]\<close> again.\<close>

definition get_block_number :: "string \<Rightarrow> line \<Rightarrow> nat \<Rightarrow> exn + int" where
  "get_block_number file_name ln row_no =
     (case (case item ln 1 of
              None \<Rightarrow> Inl IndexError
            | Some s \<Rightarrow> (case py_int s of None \<Rightarrow> Inl ValueError | Some k \<Rightarrow> Inr k)) of
        Inr k \<Rightarrow> Inr k
      | Inl e \<Rightarrow>
          if e = IndexError \<or> e = ValueError then
            (case item ln 1 of
               None \<Rightarrow> Inl IndexError
             | Some s \<Rightarrow>
                 Inl (RowValidationFailure row_no file_name (BlockIdNotInteger (upper s) row_no)))
          else Inl e)"

text \<open>\<open>field.extend(values)\<close> on a repeated field of a new Cell.\<close>

definition extend_checked :: "(pyval \<Rightarrow> 'a option) \<Rightarrow> pyval list \<Rightarrow> exn + 'a list" where
  "extend_checked chk vs =
     (if list_all (\<lambda>v. chk v \<noteq> None) vs then Inr (map (\<lambda>v. the (chk v)) vs) else Inl TypeError)"

text \<open>\<open>get_cell_object\<close>, lines 59-83.\<close>

definition get_cell_object :: "pb2 \<Rightarrow> validator \<Rightarrow> pyval \<Rightarrow> exn + cell" where
  "get_cell_object pb cell_validator cell_parsed_data =
     (let cell_proto = \<lparr>name = cell_name cell_validator,
                        cell_type = get_cell_type cell_validator,
                        string_value = [], integer_value = [],
                        decimal_value = [], boolean_value = []\<rparr>;
          data = (case cell_parsed_data of PList xs \<Rightarrow> xs | _ \<Rightarrow> [cell_parsed_data])
      in case cell_type cell_proto of
           STRING \<Rightarrow>
             (case extend_checked (string_item pb) data of
                Inl e \<Rightarrow> Inl e | Inr xs \<Rightarrow> Inr (cell_proto\<lparr>string_value := xs\<rparr>))
         | INTEGER \<Rightarrow>
             (case extend_checked (integer_item pb) data of
                Inl e \<Rightarrow> Inl e | Inr xs \<Rightarrow> Inr (cell_proto\<lparr>integer_value := xs\<rparr>))
         | DECIMAL \<Rightarrow>
             (case extend_checked (decimal_item pb) data of
                Inl e \<Rightarrow> Inl e | Inr xs \<Rightarrow> Inr (cell_proto\<lparr>decimal_value := xs\<rparr>))
         | BOOLEAN \<Rightarrow>
             (case extend_checked (boolean_item pb) data of
                Inl e \<Rightarrow> Inl e | Inr xs \<Rightarrow> Inr (cell_proto\<lparr>boolean_value := xs\<rparr>)))"

text \<open>
  The loop of \<open>get_row_object\<close>, lines 99-107, over \<open>zip(row_validator, line)\<close>: the
  first exception ends it.
\<close>

fun row_cells ::
  "pb2 \<Rightarrow> string \<Rightarrow> (validator option \<times> string) list \<Rightarrow> nat \<Rightarrow> block_ref \<Rightarrow> exn + cell list"
where
  "row_cells pb file_name [] row_no block_no = Inr []"
| "row_cells pb file_name ((None, cell_content) # rest) row_no block_no =
     row_cells pb file_name rest row_no block_no"
| "row_cells pb file_name ((Some cell_validator, cell_content) # rest) row_no block_no =
     (case validate_value cell_validator cell_content row_no file_name block_no of
        Inl e \<Rightarrow> Inl e
      | Inr cell_parsed_data \<Rightarrow>
          if cell_parsed_data \<noteq> PNone \<and> cell_parsed_data \<noteq> PStr [] then
            (case get_cell_object pb cell_validator cell_parsed_data of
               Inl e \<Rightarrow> Inl e
             | Inr c \<Rightarrow>
                 (case row_cells pb file_name rest row_no block_no of
                    Inl e \<Rightarrow> Inl e
                  | Inr cs \<Rightarrow> Inr (c # cs)))
          else row_cells pb file_name rest row_no block_no)"

text \<open>\<open>get_row_object\<close>, lines 85-109.\<close>

definition get_row_object ::
  "pb2 \<Rightarrow> string \<Rightarrow> row_validator \<Rightarrow> line \<Rightarrow> nat \<Rightarrow> block_ref \<Rightarrow> exn + row"
where
  "get_row_object pb file_name row_validator ln row_no block_no =
     (case ln of
        [] \<Rightarrow> Inl IndexError
      | f # _ \<Rightarrow>
          (case row_cells pb file_name (zip row_validator ln) row_no block_no of
             Inl e \<Rightarrow> Inl e
           | Inr cs \<Rightarrow> Inr \<lparr>rtype = upper f, row_number = row_no, cells = cs\<rparr>))"

text \<open>\<open>_get_row_type\<close>, lines 114-136.\<close>

definition get_row_type :: "string \<Rightarrow> line \<Rightarrow> row_validators \<Rightarrow> nat \<Rightarrow> exn + string" where
  "get_row_type file_name ln row_validators_list row_no =
     (case ln of
        [] \<Rightarrow> Inl (RowValidationFailure row_no file_name EmptyRecord)
      | f # _ \<Rightarrow>
          (let row_type = upper f in
           if row_type \<notin> set (map fst row_validators_list) then
             Inl (RowValidationFailure row_no file_name
                    (UnknownRowType row_type (map fst row_validators_list)))
           else Inr row_type))"

text \<open>\<open>is_end_of_block\<close>, lines 196-208. It reads \<open>line[0]\<close> as it is in the file.\<close>

definition is_end_of_block :: "pb2 \<Rightarrow> string \<Rightarrow> line \<Rightarrow> nat \<Rightarrow> block \<Rightarrow> exn + bool" where
  "is_end_of_block pb file_name ln row_no current_block =
     (case ln of
        [] \<Rightarrow> Inl IndexError
      | f # _ \<Rightarrow>
          if btype current_block = HEAD pb then Inr (f \<notin> set HEAD_ROWS)
          else if btype current_block = FOOT pb then Inr (f \<notin> set FOOT_ROWS)
          else if f \<in> set FOOT_ROWS then Inr True
          else (case get_block_number file_name ln row_no of
                  Inl e \<Rightarrow> Inl e
                | Inr k \<Rightarrow> Inr (number current_block \<noteq> k)))"

text \<open>
  The state of the generator \<open>parse_file\<close> between two lines: the open Block, the Blocks
  yielded so far, and the errors handed to \<open>logger.error\<close> so far. (The messages of
  \<open>logger.info\<close> are left out.)
\<close>

record pstate =
  current_block :: block
  yielded :: "block list"
  logged :: "exn list"

text \<open>\<open>row_validators_list[row_type]\<close>.\<close>

definition getitem :: "row_validators \<Rightarrow> string \<Rightarrow> exn + row_validator" where
  "getitem row_validators_list row_type =
     (case map_of row_validators_list row_type of None \<Rightarrow> Inl KeyError | Some rv \<Rightarrow> Inr rv)"

text \<open>
  The body of the \<open>try\<close> statement, lines 164-190, for one line. It returns the state it
  has reached and the exception that left it, if one did: what has been assigned or
  yielded before an exception stays.
\<close>

definition head_foot_row ::
  "pb2 \<Rightarrow> string \<Rightarrow> row_validators \<Rightarrow> string \<Rightarrow> line \<Rightarrow> nat \<Rightarrow> pstate \<Rightarrow> pstate \<times> exn option"
where
  "head_foot_row pb file_name row_validators_list row_type ln row_no st =
     (let b1 = (current_block st)\<lparr>btype := HEAD pb\<rparr>;
          b2 = (if row_type \<in> set FOOT_ROWS then b1\<lparr>btype := FOOT pb\<rparr> else b1)
      in case (if row_type = ''HEAD''
               then (case item ln 1 of
                       None \<Rightarrow> Inl IndexError
                     | Some v \<Rightarrow> Inr (b2\<lparr>version := v\<rparr>))
               else Inr b2) of
           Inl e \<Rightarrow> (st\<lparr>current_block := b2\<rparr>, Some e)
         | Inr b3 \<Rightarrow>
             (case getitem row_validators_list row_type of
                Inl e \<Rightarrow> (st\<lparr>current_block := b3\<rparr>, Some e)
              | Inr rv \<Rightarrow>
                  (case get_row_object pb file_name rv ln row_no (RowTypeName row_type) of
                     Inl e \<Rightarrow> (st\<lparr>current_block := b3\<rparr>, Some e)
                   | Inr r \<Rightarrow> (st\<lparr>current_block := b3\<lparr>rows := rows b3 @ [r]\<rparr>\<rparr>, None))))"

definition body_row ::
  "pb2 \<Rightarrow> string \<Rightarrow> row_validators \<Rightarrow> string \<Rightarrow> line \<Rightarrow> nat \<Rightarrow> pstate \<Rightarrow> pstate \<times> exn option"
where
  "body_row pb file_name row_validators_list row_type ln row_no st =
     (case get_block_number file_name ln row_no of
        Inl e \<Rightarrow> (st, Some e)
      | Inr block_no \<Rightarrow>
          (case getitem row_validators_list row_type of
             Inl e \<Rightarrow> (st, Some e)
           | Inr rv \<Rightarrow>
               (case get_row_object pb file_name rv ln row_no (BlockNumber block_no) of
                  Inl e \<Rightarrow> (st, Some e)
                | Inr r \<Rightarrow>
                    (let b = current_block st;
                         b1 = (if btype b = 0 then b\<lparr>btype := BODY pb, number := block_no\<rparr>
                               else b)
                     in (st\<lparr>current_block := b1\<lparr>rows := rows b1 @ [r]\<rparr>\<rparr>, None)))))"

definition try_body ::
  "pb2 \<Rightarrow> string \<Rightarrow> row_validators \<Rightarrow> int \<Rightarrow> line \<Rightarrow> nat \<Rightarrow> pstate \<Rightarrow> pstate \<times> exn option"
where
  "try_body pb file_name row_validators_list file_no ln row_no st =
     (case get_row_type file_name ln row_validators_list row_no of
        Inl e \<Rightarrow> (st, Some e)
      | Inr row_type \<Rightarrow>
          (case is_end_of_block pb file_name ln row_no (current_block st) of
             Inl e \<Rightarrow> (st, Some e)
           | Inr eob \<Rightarrow>
               (let st1 = (if eob
                           then st\<lparr>yielded := yielded st @ [current_block st],
                                   current_block := new_block pb file_no\<rparr>
                           else st)
                in if row_type \<in> set HEAD_ROWS \<or> row_type \<in> set FOOT_ROWS
                   then head_foot_row pb file_name row_validators_list row_type ln row_no st1
                   else body_row pb file_name row_validators_list row_type ln row_no st1)))"

text \<open>
  One iteration of the \<open>for\<close> loop, lines 158-192, on the line with number \<open>row_no\<close>
  (already incremented). The comment test reads \<open>line[0]\<close> outside the \<open>try\<close>. An
  exception that is not a \<open>ValidationError\<close> leaves the generator.
\<close>

definition parse_line ::
  "pb2 \<Rightarrow> string \<Rightarrow> row_validators \<Rightarrow> int \<Rightarrow> line \<Rightarrow> nat \<Rightarrow> pstate \<Rightarrow> pstate \<times> exn option"
where
  "parse_line pb file_name row_validators_list file_no ln row_no st =
     (case ln of
        [] \<Rightarrow> (st, Some IndexError)
      | f # _ \<Rightarrow>
          if startswith f COMMENT_SIGN then (st, None)
          else (case try_body pb file_name row_validators_list file_no ln row_no st of
                  (st1, None) \<Rightarrow> (st1, None)
                | (st1, Some e) \<Rightarrow>
                    if is_ValidationError e then (st1\<lparr>logged := logged st1 @ [e]\<rparr>, None)
                    else (st1, Some e)))"

text \<open>The \<open>for\<close> loop; \<open>row_no\<close> is the number of the lines read before.\<close>

fun parse_lines ::
  "pb2 \<Rightarrow> string \<Rightarrow> row_validators \<Rightarrow> int \<Rightarrow> line list \<Rightarrow> nat \<Rightarrow> pstate \<Rightarrow> pstate \<times> exn option"
where
  "parse_lines pb file_name row_validators_list file_no [] row_no st = (st, None)"
| "parse_lines pb file_name row_validators_list file_no (ln # lns) row_no st =
     (case parse_line pb file_name row_validators_list file_no ln (Suc row_no) st of
        (st1, None) \<Rightarrow> parse_lines pb file_name row_validators_list file_no lns (Suc row_no) st1
      | (st1, Some e) \<Rightarrow> (st1, Some e))"

text \<open>
  \<open>parse_file\<close>, lines 138-194, consumed to its end: the Blocks yielded in order, the
  errors logged, and the exception that ended the generator (\<open>None\<close> when the line
  source was exhausted and the generator returned).
\<close>

record parsed =
  blocks :: "block list"
  errors :: "exn list"
  raised :: "exn option"

definition initial :: "pb2 \<Rightarrow> int \<Rightarrow> pstate" where
  "initial pb file_no = \<lparr>current_block = new_block pb file_no, yielded = [], logged = []\<rparr>"

definition parse_file :: "pb2 \<Rightarrow> string \<Rightarrow> row_validators \<Rightarrow> int \<Rightarrow> line list \<Rightarrow> parsed" where
  "parse_file pb file_name row_validators_list file_no lns =
     (case parse_lines pb file_name row_validators_list file_no lns 0 (initial pb file_no) of
        (st, None) \<Rightarrow>
          \<lparr>blocks = yielded st @ [current_block st], errors = logged st, raised = None\<rparr>
      | (st, Some e) \<Rightarrow>
          \<lparr>blocks = yielded st, errors = logged st, raised = Some e\<rparr>)"

subsection \<open>Specification predicates\<close>

text \<open>
  \<open>built_from pb file_name vs ln n r\<close>: the Row \<open>r\<close> is what the parser builds from the
  line \<open>ln\<close> with number \<open>n\<close>. The line is not empty and not a comment, its upper-cased
  first field is a key of the table, and \<open>r\<close> is the result of \<open>get_row_object\<close> on the
  line with the row validator of that key, called with the row type for a row of
  \<open>HEAD_ROWS\<close> or \<open>FOOT_ROWS\<close> and with the line's block number for any other row.
\<close>

definition built_from :: "pb2 \<Rightarrow> string \<Rightarrow> row_validators \<Rightarrow> line \<Rightarrow> nat \<Rightarrow> row \<Rightarrow> bool" where
  "built_from pb file_name vs ln n r \<longleftrightarrow>
     (case ln of
        [] \<Rightarrow> False
      | f # _ \<Rightarrow>
          \<not> startswith f COMMENT_SIGN \<and>
          (case map_of vs (upper f) of
             None \<Rightarrow> False
           | Some rv \<Rightarrow>
               if upper f \<in> set HEAD_ROWS \<or> upper f \<in> set FOOT_ROWS
               then get_row_object pb file_name rv ln n (RowTypeName (upper f)) = Inr r
               else (case get_block_number file_name ln n of
                       Inl _ \<Rightarrow> False
                     | Inr k \<Rightarrow> get_row_object pb file_name rv ln n (BlockNumber k) = Inr r)))"

text \<open>
  The values of a Cell lie in the repeated field of its declared type, and in no other
  field; \<open>value_count\<close> is the number of values it holds.
\<close>

definition well_typed :: "cell \<Rightarrow> bool" where
  "well_typed c \<longleftrightarrow>
     (case cell_type c of
        STRING \<Rightarrow> integer_value c = [] \<and> decimal_value c = [] \<and> boolean_value c = []
      | INTEGER \<Rightarrow> string_value c = [] \<and> decimal_value c = [] \<and> boolean_value c = []
      | DECIMAL \<Rightarrow> string_value c = [] \<and> integer_value c = [] \<and> boolean_value c = []
      | BOOLEAN \<Rightarrow> string_value c = [] \<and> integer_value c = [] \<and> decimal_value c = [])"

definition value_count :: "cell \<Rightarrow> nat" where
  "value_count c =
     length (string_value c) + length (integer_value c) +
     length (decimal_value c) + length (boolean_value c)"

text \<open>The number of values in what a validator returned: a list as it is, a scalar as one.\<close>

definition data_count :: "pyval \<Rightarrow> nat" where
  "data_count d = (case d of PList xs \<Rightarrow> length xs | _ \<Rightarrow> 1)"

text \<open>
  The items of what a validator returned (a list as it is, a scalar as its only item),
  and \<open>carries pb c d\<close>: the values of the Cell \<open>c\<close> in the repeated field of its
  declared type are the items of \<open>d\<close>, in order, each as the runtime's check of that
  field accepts it.
\<close>

definition data_items :: "pyval \<Rightarrow> pyval list" where
  "data_items d = (case d of PList xs \<Rightarrow> xs | _ \<Rightarrow> [d])"

definition carries :: "pb2 \<Rightarrow> cell \<Rightarrow> pyval \<Rightarrow> bool" where
  "carries pb c d \<longleftrightarrow>
     (case cell_type c of
        STRING \<Rightarrow> map (string_item pb) (data_items d) = map Some (string_value c)
      | INTEGER \<Rightarrow> map (integer_item pb) (data_items d) = map Some (integer_value c)
      | DECIMAL \<Rightarrow> map (decimal_item pb) (data_items d) = map Some (decimal_value c)
      | BOOLEAN \<Rightarrow> map (boolean_item pb) (data_items d) = map Some (boolean_value c))"

text \<open>
  What one line can do to the rows of the open Block, starting from the rows \<open>base\<close>:
  nothing, or append one Row built from the line (and then no exception is left).
\<close>

definition appended ::
  "pb2 \<Rightarrow> string \<Rightarrow> row_validators \<Rightarrow> line \<Rightarrow> nat \<Rightarrow> row list \<Rightarrow> pstate \<Rightarrow> exn option \<Rightarrow> bool"
where
  "appended pb fname vs ln n base st' e \<longleftrightarrow>
     rows (current_block st') = base \<or>
     (\<exists>r. e = None \<and> rows (current_block st') = base @ [r] \<and> built_from pb fname vs ln n r)"

text \<open>The Rows of the yielded Blocks and of the open Block, in order.\<close>

definition all_rows :: "pstate \<Rightarrow> row list" where
  "all_rows st = concat (map rows (yielded st)) @ rows (current_block st)"

text \<open>
  The first Block of the output: the first yielded Block, or the open Block while none
  has been yielded. \<open>lead_inv\<close> is what the loop keeps true of it when a new Block's
  type reads \<open>HEAD\<close>: without Rows it has that type and the number 0, and with Rows its
  first Row is of a type in \<open>HEAD_ROWS\<close>.
\<close>

definition first_block :: "pstate \<Rightarrow> block" where
  "first_block st = hd (yielded st @ [current_block st])"

definition lead_inv :: "pb2 \<Rightarrow> pstate \<Rightarrow> bool" where
  "lead_inv pb st \<longleftrightarrow>
     (rows (first_block st) = [] \<longrightarrow>
        btype (first_block st) = HEAD pb \<and> number (first_block st) = 0) \<and>
     (rows (first_block st) \<noteq> [] \<longrightarrow> rtype (hd (rows (first_block st))) \<in> set HEAD_ROWS) \<and>
     (yielded st = [] \<longrightarrow> btype (current_block st) = HEAD pb)"

subsection \<open>A concrete parser configuration\<close>

text \<open>
  An encoding with \<open>HEAD\<close> as the default type, and repeated fields that accept the
  values of their own type.
\<close>

definition example_pb2 :: pb2 where
  "example_pb2 =
     \<lparr>HEAD = 0, BODY = 1, FOOT = 2, default_type = 0,
      string_item = (\<lambda>v. case v of PStr s \<Rightarrow> Some s | _ \<Rightarrow> None),
      integer_item = (\<lambda>v. case v of PInt i \<Rightarrow> Some i | _ \<Rightarrow> None),
      decimal_item = (\<lambda>v. case v of PFloat x \<Rightarrow> Some x | _ \<Rightarrow> None),
      boolean_item = (\<lambda>v. case v of PBool b \<Rightarrow> Some b | _ \<Rightarrow> None)\<rparr>"

text \<open>A validator that accepts every cell and returns its content as a string.\<close>

definition string_validator :: "string \<Rightarrow> validator" where
  "string_validator nm =
     \<lparr>cell_name = nm, get_cell_type = STRING,
      validate_value = (\<lambda>cell_content row_no file_name block_no. Inr (PStr cell_content))\<rparr>"

text \<open>A validator of a repeated cell that finds no value in any cell.\<close>

definition no_values_validator :: "string \<Rightarrow> validator" where
  "no_values_validator nm =
     \<lparr>cell_name = nm, get_cell_type = STRING,
      validate_value = (\<lambda>cell_content row_no file_name block_no. Inr (PList []))\<rparr>"

text \<open>
  A validator that returns the \<open>block_number\<close> argument it was called with.
\<close>

definition echo_validator :: "string \<Rightarrow> validator" where
  "echo_validator nm =
     \<lparr>cell_name = nm, get_cell_type = STRING,
      validate_value =
        (\<lambda>cell_content row_no file_name block_no.
           case block_no of
             RowTypeName t \<Rightarrow> Inr (PStr (''row type '' @ t))
           | BlockNumber k \<Rightarrow> Inr (PStr (if k = 1 then ''block 1'' else ''another block'')))\<rparr>"

definition echo_validators :: row_validators where
  "echo_validators =
     [(''HEAD'', [Some (echo_validator ''RecordType'')]),
      (''AS01'', [Some (echo_validator ''RecordType'')])]"

definition example_validators :: row_validators where
  "example_validators =
     [(''HEAD'', [Some (string_validator ''RecordType''), Some (string_validator ''Version'')]),
      (''SY01'', [Some (string_validator ''RecordType''), None]),
      (''BODY01'', [Some (string_validator ''RecordType''), None,
                    Some (string_validator ''Title'')]),
      (''FOOT'', [Some (string_validator ''RecordType''), Some (string_validator ''Note'')])]"

definition scenario :: "line list" where
  "scenario =
     [[''HEAD'', ''3.0''], [''SY01'', ''x''], [''BODY01'', ''1'', ''foo''],
      [''BODY01'', ''1'', ''bar''], [''BODY01'', ''2'', ''baz''], [''FOOT'', ''done'']]"

section \<open>Properties\<close>

subsection \<open>What one line does\<close>


lemma head_foot_row_cases:
  assumes "head_foot_row pb fname vs rt ln n st = (st', e)"
  shows "yielded st' = yielded st \<and> logged st' = logged st \<and>
         (rows (current_block st') = rows (current_block st) \<or>
          (\<exists>r rv. e = None \<and> rows (current_block st') = rows (current_block st) @ [r] \<and>
             map_of vs rt = Some rv \<and>
             get_row_object pb fname rv ln n (RowTypeName rt) = Inr r))"
  using assms
  by (auto simp: head_foot_row_def getitem_def Let_def split: if_splits option.splits sum.splits)

lemma body_row_cases:
  assumes "body_row pb fname vs rt ln n st = (st', e)"
  shows "yielded st' = yielded st \<and> logged st' = logged st \<and>
         (rows (current_block st') = rows (current_block st) \<or>
          (\<exists>r rv k. e = None \<and> rows (current_block st') = rows (current_block st) @ [r] \<and>
             map_of vs rt = Some rv \<and> get_block_number fname ln n = Inr k \<and>
             get_row_object pb fname rv ln n (BlockNumber k) = Inr r))"
  using assms
  by (auto simp: body_row_def getitem_def Let_def split: if_splits option.splits sum.splits)

lemma get_row_type_Inr:
  "get_row_type fname ln vs n = Inr rt \<Longrightarrow>
     \<exists>f fs. ln = f # fs \<and> rt = upper f \<and> upper f \<in> set (map fst vs)"
  by (auto simp: get_row_type_def Let_def split: list.splits if_splits)


lemma try_body_cases:
  assumes "try_body pb fname vs fnum ln n st = (st', e)" and nc: "\<not> startswith (hd ln) COMMENT_SIGN"
  shows "logged st' = logged st \<and>
         ((yielded st' = yielded st \<and> appended pb fname vs ln n (rows (current_block st)) st' e) \<or>
          (yielded st' = yielded st @ [current_block st] \<and> appended pb fname vs ln n [] st' e))"
proof (cases "get_row_type fname ln vs n")
  case (Inl x)
  with assms show ?thesis by (simp add: try_body_def appended_def)
next
  case (Inr rt)
  then obtain f fs where ln: "ln = f # fs" and rt: "rt = upper f" and mem: "upper f \<in> set (map fst vs)"
    using get_row_type_Inr by blast
  show ?thesis
  proof (cases "is_end_of_block pb fname ln n (current_block st)")
    case (Inl x)
    with assms Inr show ?thesis by (simp add: try_body_def appended_def)
  next
    case eob: (Inr eob)
    define st1 where "st1 = (if eob then st\<lparr>yielded := yielded st @ [current_block st],
                                   current_block := new_block pb fnum\<rparr> else st)"
    have base: "(yielded st1 = yielded st \<and> rows (current_block st1) = rows (current_block st)) \<or>
                (yielded st1 = yielded st @ [current_block st] \<and> rows (current_block st1) = [])"
      by (simp add: st1_def new_block_def)
    have lg: "logged st1 = logged st" by (simp add: st1_def)
    show ?thesis
    proof (cases "rt \<in> set HEAD_ROWS \<or> rt \<in> set FOOT_ROWS")
      case True
      with assms Inr eob have "head_foot_row pb fname vs rt ln n st1 = (st', e)"
        by (simp add: try_body_def st1_def Let_def)
      from head_foot_row_cases[OF this] True rt ln nc base lg show ?thesis
        by (auto simp: appended_def built_from_def)
    next
      case False
      with assms Inr eob have "body_row pb fname vs rt ln n st1 = (st', e)"
        by (simp add: try_body_def st1_def Let_def)
      from body_row_cases[OF this] False rt ln nc base lg show ?thesis
        by (auto simp: appended_def built_from_def)
    qed
  qed
qed

lemma parse_line_cases:
  assumes "parse_line pb fname vs fnum ln n st = (st', e)"
  shows "(yielded st' = yielded st \<and> appended pb fname vs ln n (rows (current_block st)) st' e) \<or>
         (yielded st' = yielded st @ [current_block st] \<and> appended pb fname vs ln n [] st' e)"
proof (cases ln)
  case Nil
  with assms show ?thesis by (simp add: parse_line_def appended_def)
next
  case (Cons f fs)
  show ?thesis
  proof (cases "startswith f COMMENT_SIGN")
    case True
    with assms Cons show ?thesis by (simp add: parse_line_def appended_def)
  next
    case False
    obtain st1 e1 where tb: "try_body pb fname vs fnum ln n st = (st1, e1)" by force
    have nc: "\<not> startswith (hd ln) COMMENT_SIGN" using False Cons by simp
    from assms Cons False tb have
      "(st' = st1 \<and> e = e1) \<or> (st' = st1\<lparr>logged := logged st1 @ [the e1]\<rparr> \<and> e = None \<and> e1 \<noteq> None)"
      by (auto simp: parse_line_def split: option.splits if_splits)
    with try_body_cases[OF tb nc] show ?thesis
      by (auto simp: appended_def)
  qed
qed


lemma parse_line_all_rows:
  assumes "parse_line pb fname vs fnum ln n st = (st', e)"
  shows "all_rows st' = all_rows st \<or>
         (\<exists>r. e = None \<and> all_rows st' = all_rows st @ [r] \<and> built_from pb fname vs ln n r)"
  using parse_line_cases[OF assms]
  by (auto simp: all_rows_def appended_def)

lemma built_from_row_number: "built_from pb fname vs ln n r \<Longrightarrow> row_number r = n"
  by (auto simp: built_from_def get_row_object_def split: list.splits option.splits sum.splits if_splits)


lemma parse_lines_all_rows:
  assumes "parse_lines pb fname vs fnum lns n st = (st', e)"
  shows "\<exists>new. all_rows st' = all_rows st @ new \<and>
           sorted_wrt (<) (map row_number new) \<and>
           (\<forall>r \<in> set new. n < row_number r \<and> row_number r \<le> n + length lns \<and>
              built_from pb fname vs (lns ! (row_number r - Suc n)) (row_number r) r)"
  using assms
proof (induction lns arbitrary: n st)
  case Nil
  then show ?case by simp
next
  case (Cons ln lns)
  obtain st1 e1 where pl: "parse_line pb fname vs fnum ln (Suc n) st = (st1, e1)" by force
  have "\<exists>one. all_rows st1 = all_rows st @ one \<and>
          (\<forall>r \<in> set one. row_number r = Suc n \<and> built_from pb fname vs ln (Suc n) r) \<and>
          length one \<le> 1"
    using parse_line_all_rows[OF pl]
  proof
    assume "all_rows st1 = all_rows st"
    then show ?thesis by (intro exI[of _ "[]"]) simp
  next
    assume "\<exists>r. e1 = None \<and> all_rows st1 = all_rows st @ [r] \<and> built_from pb fname vs ln (Suc n) r"
    then obtain r where "all_rows st1 = all_rows st @ [r]" "built_from pb fname vs ln (Suc n) r"
      by blast
    then show ?thesis by (intro exI[of _ "[r]"]) (simp add: built_from_row_number)
  qed
  then obtain one where one: "all_rows st1 = all_rows st @ one"
      and one_rows: "\<forall>r \<in> set one. row_number r = Suc n \<and> built_from pb fname vs ln (Suc n) r"
      and one_len: "length one \<le> 1"
    by blast
  show ?case
  proof (cases e1)
    case (Some x)
    with Cons.prems pl have "st' = st1" by simp
    moreover have "sorted_wrt (<) (map row_number one)"
      using one_len by (cases one) auto
    ultimately show ?thesis using one one_rows by (intro exI[of _ one]) auto
  next
    case None
    with Cons.prems pl have "parse_lines pb fname vs fnum lns (Suc n) st1 = (st', e)" by simp
    from Cons.IH[OF this] obtain new where
      new: "all_rows st' = all_rows st1 @ new" and
      srt: "sorted_wrt (<) (map row_number new)" and
      rws: "\<forall>r \<in> set new. Suc n < row_number r \<and> row_number r \<le> Suc n + length lns \<and>
              built_from pb fname vs (lns ! (row_number r - Suc (Suc n))) (row_number r) r"
      by blast
    have "sorted_wrt (<) (map row_number (one @ new))"
      using srt one_rows rws one_len by (cases one) (auto simp: sorted_wrt_append)
    moreover have "\<forall>r \<in> set (one @ new). n < row_number r \<and> row_number r \<le> n + length (ln # lns) \<and>
              built_from pb fname vs ((ln # lns) ! (row_number r - Suc n)) (row_number r) r"
    proof
      fix r assume "r \<in> set (one @ new)"
      then consider "r \<in> set one" | "r \<in> set new" by auto
      then show "n < row_number r \<and> row_number r \<le> n + length (ln # lns) \<and>
              built_from pb fname vs ((ln # lns) ! (row_number r - Suc n)) (row_number r) r"
      proof cases
        case 1
        with one_rows show ?thesis by auto
      next
        case 2
        with rws have a: "Suc n < row_number r" "row_number r \<le> Suc n + length lns"
          "built_from pb fname vs (lns ! (row_number r - Suc (Suc n))) (row_number r) r" by auto
        from a(1) have "(ln # lns) ! (row_number r - Suc n) = lns ! (row_number r - Suc (Suc n))"
          by (metis Suc_diff_Suc nth_Cons_Suc)
        with a show ?thesis by auto
      qed
    qed
    ultimately show ?thesis using one new by (intro exI[of _ "one @ new"]) auto
  qed
qed

subsection \<open>The Rows of the yielded Blocks\<close>


lemma concat_member_segment:
  assumes "b \<in> set bs"
  shows "\<exists>pre post. concat (map rows bs) = pre @ rows b @ post"
proof -
  from assms obtain xs ys where "bs = xs @ b # ys" by (auto dest: split_list)
  then show ?thesis by auto
qed

lemma initial_all_rows: "all_rows (initial pb fnum) = []"
  by (simp add: all_rows_def initial_def new_block_def)

lemma parse_file_rows_segment:
  assumes "b \<in> set (blocks (parse_file pb fname vs fnum lns))"
  shows "\<exists>pre post new. new = pre @ rows b @ post \<and>
           sorted_wrt (<) (map row_number new) \<and>
           (\<forall>r \<in> set new. 0 < row_number r \<and> row_number r \<le> length lns \<and>
              built_from pb fname vs (lns ! (row_number r - 1)) (row_number r) r)"
proof -
  obtain st e where pl: "parse_lines pb fname vs fnum lns 0 (initial pb fnum) = (st, e)" by force
  from parse_lines_all_rows[OF pl] obtain new where
    new: "all_rows st = new" and srt: "sorted_wrt (<) (map row_number new)" and
    rws: "\<forall>r \<in> set new. 0 < row_number r \<and> row_number r \<le> length lns \<and>
              built_from pb fname vs (lns ! (row_number r - 1)) (row_number r) r"
    by (auto simp: initial_all_rows)
  have "\<exists>pre post. all_rows st = pre @ rows b @ post"
  proof (cases e)
    case None
    with assms pl have "b \<in> set (yielded st @ [current_block st])" by (simp add: parse_file_def)
    from concat_member_segment[OF this] show ?thesis by (simp add: all_rows_def)
  next
    case (Some x)
    with assms pl have "b \<in> set (yielded st)" by (simp add: parse_file_def)
    from concat_member_segment[OF this] obtain pre post where
      "concat (map rows (yielded st)) = pre @ rows b @ post" by blast
    then have "all_rows st = pre @ rows b @ (post @ rows (current_block st))"
      by (simp add: all_rows_def)
    then show ?thesis by blast
  qed
  with new srt rws show ?thesis by blast
qed

subsection \<open>Evaluating the scenario\<close>

lemma upper_scenario:
  "upper ''HEAD'' = ''HEAD''" "upper ''SY01'' = ''SY01''" "upper ''BODY01'' = ''BODY01''"
  "upper ''FOOT'' = ''FOOT''"
  by code_simp+

lemma py_int_scenario: "py_int ''1'' = Some 1" "py_int ''2'' = Some 2"
  by code_simp+

lemma map_of_key: "map_of vs k = Some v \<Longrightarrow> k \<in> fst ` set vs"
  using domI[of "map_of vs" k v] by (simp add: dom_map_of_conv_image_fst)

subsection \<open>Block numbers and unknown row types\<close>

lemma get_block_number_not_integer:
  assumes "item ln 1 = Some s" and "py_int s = None"
  shows "get_block_number fname ln n =
           Inl (RowValidationFailure n fname (BlockIdNotInteger (upper s) n))"
  using assms by (simp add: get_block_number_def)

lemma get_block_number_Inr:
  "get_block_number fname ln n = Inr k \<longleftrightarrow> (\<exists>s. item ln 1 = Some s \<and> py_int s = Some k)"
  by (auto simp: get_block_number_def split: option.splits)

lemma parse_line_unknown:
  assumes "upper f \<notin> set (map fst vs)"
  shows "parse_line pb fname vs fnum (f # fs) n st =
           (if startswith f COMMENT_SIGN then st
            else st\<lparr>logged := logged st @
                   [RowValidationFailure n fname (UnknownRowType (upper f) (map fst vs))]\<rparr>,
            None)"
  using assms by (simp add: parse_line_def try_body_def get_row_type_def Let_def)

lemma built_from_known: "built_from pb fname vs ln n r \<Longrightarrow> ln \<noteq> [] \<and> upper (hd ln) \<in> set (map fst vs)"
  by (auto simp: built_from_def split: list.splits option.splits dest: map_of_key)

subsection \<open>Cells\<close>

lemma extend_checked_Inr:
  assumes "extend_checked chk xs = Inr ys"
  shows "map chk xs = map Some ys"
proof -
  from assms have all: "list_all (\<lambda>v. chk v \<noteq> None) xs" and ys: "ys = map (\<lambda>v. the (chk v)) xs"
    by (auto simp: extend_checked_def split: if_splits)
  from all have "\<forall>v \<in> set xs. chk v = Some (the (chk v))" by (auto simp: list_all_iff)
  with ys show ?thesis by simp
qed

lemma get_cell_object_Inr:
  assumes "get_cell_object pb v d = Inr c"
  shows "name c = cell_name v \<and> cell_type c = get_cell_type v \<and> well_typed c \<and>
         value_count c = data_count d \<and> carries pb c d"
proof -
  have len: "\<And>chk xs ys. map chk xs = map Some ys \<Longrightarrow> length ys = length xs"
    by (metis length_map)
  have dc: "length (data_items d) = data_count d"
    by (cases d) (simp_all add: data_count_def data_items_def)
  have di: "(case d of PList xs \<Rightarrow> xs | _ \<Rightarrow> [d]) = data_items d"
    by (simp add: data_items_def)
  show ?thesis
  proof (cases "get_cell_type v")
    case STRING
    with assms di obtain xs where x: "extend_checked (string_item pb) (data_items d) = Inr xs"
      and c: "c = \<lparr>name = cell_name v, cell_type = STRING, string_value = xs,
                   integer_value = [], decimal_value = [], boolean_value = []\<rparr>"
      by (auto simp: get_cell_object_def Let_def split: sum.splits)
    from extend_checked_Inr[OF x] have m: "map (string_item pb) (data_items d) = map Some xs" .
    from len[OF m] dc have "length xs = data_count d" by simp
    with m c STRING show ?thesis
      by (simp add: well_typed_def value_count_def carries_def)
  next
    case INTEGER
    with assms di obtain xs where x: "extend_checked (integer_item pb) (data_items d) = Inr xs"
      and c: "c = \<lparr>name = cell_name v, cell_type = INTEGER, string_value = [],
                   integer_value = xs, decimal_value = [], boolean_value = []\<rparr>"
      by (auto simp: get_cell_object_def Let_def split: sum.splits)
    from extend_checked_Inr[OF x] have m: "map (integer_item pb) (data_items d) = map Some xs" .
    from len[OF m] dc have "length xs = data_count d" by simp
    with m c INTEGER show ?thesis
      by (simp add: well_typed_def value_count_def carries_def)
  next
    case DECIMAL
    with assms di obtain xs where x: "extend_checked (decimal_item pb) (data_items d) = Inr xs"
      and c: "c = \<lparr>name = cell_name v, cell_type = DECIMAL, string_value = [],
                   integer_value = [], decimal_value = xs, boolean_value = []\<rparr>"
      by (auto simp: get_cell_object_def Let_def split: sum.splits)
    from extend_checked_Inr[OF x] have m: "map (decimal_item pb) (data_items d) = map Some xs" .
    from len[OF m] dc have "length xs = data_count d" by simp
    with m c DECIMAL show ?thesis
      by (simp add: well_typed_def value_count_def carries_def)
  next
    case BOOLEAN
    with assms di obtain xs where x: "extend_checked (boolean_item pb) (data_items d) = Inr xs"
      and c: "c = \<lparr>name = cell_name v, cell_type = BOOLEAN, string_value = [],
                   integer_value = [], decimal_value = [], boolean_value = xs\<rparr>"
      by (auto simp: get_cell_object_def Let_def split: sum.splits)
    from extend_checked_Inr[OF x] have m: "map (boolean_item pb) (data_items d) = map Some xs" .
    from len[OF m] dc have "length xs = data_count d" by simp
    with m c BOOLEAN show ?thesis
      by (simp add: well_typed_def value_count_def carries_def)
  qed
qed

lemma row_cells_Inr:
  assumes "row_cells pb fname ps n bn = Inr cs" and "c \<in> set cs"
  shows "\<exists>v x d. (Some v, x) \<in> set ps \<and> validate_value v x n fname bn = Inr d \<and>
           d \<noteq> PNone \<and> d \<noteq> PStr [] \<and> get_cell_object pb v d = Inr c"
  using assms
proof (induction pb fname ps n bn arbitrary: cs rule: row_cells.induct)
  case (1 pb file_name row_no block_no)
  then show ?case by simp
next
  case (2 pb file_name cell_content rest row_no block_no)
  from "2.prems" have "row_cells pb file_name rest row_no block_no = Inr cs" by simp
  from "2.IH"[OF this "2.prems"(2)] show ?case by auto
next
  case (3 pb file_name cell_validator cell_content rest row_no block_no)
  from "3.prems"(1) obtain d where
    d: "validate_value cell_validator cell_content row_no file_name block_no = Inr d"
    by (auto split: sum.splits)
  show ?case
  proof (cases "d \<noteq> PNone \<and> d \<noteq> PStr []")
    case True
    with "3.prems"(1) d obtain c0 cs0 where
      c0: "get_cell_object pb cell_validator d = Inr c0" and
      cs0: "row_cells pb file_name rest row_no block_no = Inr cs0" and
      cs: "cs = c0 # cs0"
      by (auto split: sum.splits)
    from "3.prems"(2) cs consider "c = c0" | "c \<in> set cs0" by auto
    then show ?thesis
    proof cases
      case 1
      with d True c0 show ?thesis by (intro exI[of _ cell_validator] exI[of _ cell_content] exI[of _ d]) simp
    next
      case 2
      from "3.IH"(1)[OF d True c0 cs0 2] show ?thesis by auto
    qed
  next
    case False
    with "3.prems"(1) d have "row_cells pb file_name rest row_no block_no = Inr cs"
      by (auto split: sum.splits)
    from "3.IH"(2)[OF d False this "3.prems"(2)] show ?thesis by auto
  qed
qed

lemma data_count_0: "data_count d = 0 \<longleftrightarrow> d = PList []"
  by (cases d) (simp_all add: data_count_def)

lemma built_from_cells:
  assumes "built_from pb fname vs ln n r" and "c \<in> set (cells r)"
  shows "\<exists>rv v x d bn. map_of vs (rtype r) = Some rv \<and> (Some v, x) \<in> set (zip rv ln) \<and>
           validate_value v x n fname bn = Inr d \<and> d \<noteq> PNone \<and> d \<noteq> PStr [] \<and>
           get_cell_object pb v d = Inr c"
proof -
  from assms(1) obtain f fs where ln: "ln = f # fs"
    by (cases ln) (auto simp: built_from_def)
  from assms(1) ln obtain rv where rv: "map_of vs (upper f) = Some rv"
    by (auto simp: built_from_def split: option.splits)
  from assms(1) ln rv obtain bn where "get_row_object pb fname rv ln n bn = Inr r"
    by (auto simp: built_from_def split: if_splits sum.splits)
  with ln obtain cs where cs: "row_cells pb fname (zip rv ln) n bn = Inr cs"
    and r: "r = \<lparr>rtype = upper f, row_number = n, cells = cs\<rparr>"
    by (auto simp: get_row_object_def split: sum.splits)
  from r assms(2) have "c \<in> set cs" by simp
  from row_cells_Inr[OF cs this] rv r show ?thesis by auto
qed

subsection \<open>The end of the input\<close>

lemma sorted_row_numbers_distinct:
  "sorted_wrt (<) (map row_number rs) \<Longrightarrow> distinct (map row_number rs)"
  by (simp add: strict_sorted_iff)

lemma no_flush_after_exception:
  assumes "raised (parse_file pb fname vs fnum lns) = Some e"
  shows "blocks (parse_file pb fname vs fnum lns) =
           yielded (fst (parse_lines pb fname vs fnum lns 0 (initial pb fnum)))"
  using assms by (auto simp: parse_file_def split: prod.splits option.splits)

text \<open>
  When the line source is exhausted (the generator returns instead of raising), the
  Blocks of \<open>parse_file\<close> are the Blocks yielded inside the loop followed by the Block
  that was open at the end, once, whatever its type: there is at least one Block, the
  Rows of the output are all the Rows gathered, and no Row occurs twice. On the empty
  input the output is the single new Block.
\<close>

lemma terminal_flush:
  assumes "raised (parse_file pb fname vs fnum lns) = None"
  shows "blocks (parse_file pb fname vs fnum lns) =
           yielded (fst (parse_lines pb fname vs fnum lns 0 (initial pb fnum))) @
           [current_block (fst (parse_lines pb fname vs fnum lns 0 (initial pb fnum)))] \<and>
         blocks (parse_file pb fname vs fnum lns) \<noteq> [] \<and>
         concat (map rows (blocks (parse_file pb fname vs fnum lns))) =
           all_rows (fst (parse_lines pb fname vs fnum lns 0 (initial pb fnum))) \<and>
         distinct (map row_number (concat (map rows (blocks (parse_file pb fname vs fnum lns)))))"
proof -
  obtain st e where pl: "parse_lines pb fname vs fnum lns 0 (initial pb fnum) = (st, e)" by force
  with assms have e: "e = None" by (cases e) (simp_all add: parse_file_def)
  with pl have bl: "blocks (parse_file pb fname vs fnum lns) = yielded st @ [current_block st]"
    by (simp add: parse_file_def)
  then have ar: "concat (map rows (blocks (parse_file pb fname vs fnum lns))) = all_rows st"
    by (simp add: all_rows_def)
  from parse_lines_all_rows[OF pl] have "sorted_wrt (<) (map row_number (all_rows st))"
    by (auto simp: initial_all_rows)
  then have "distinct (map row_number (all_rows st))" by (rule sorted_row_numbers_distinct)
  with bl ar pl show ?thesis by simp
qed

lemma terminal_flush_examples:
  "raised (parse_file example_pb2 ''f.tsv'' example_validators 1 []) = None \<and>
   blocks (parse_file example_pb2 ''f.tsv'' example_validators 1 []) = [new_block example_pb2 1] \<and>
   length (blocks (parse_file example_pb2 ''f.tsv'' example_validators 1
     [[''HEAD'', ''3.0''], [''SY01'', ''x'']])) = 1"
proof -
  have h0: "raised (parse_file example_pb2 ''f.tsv'' example_validators 1 []) = None"
    by code_simp
  have h1: "raised (parse_file example_pb2 ''f.tsv'' example_validators 1
     [[''HEAD'', ''3.0''], [''SY01'', ''x'']]) = None" by code_simp
  have y1: "yielded (fst (parse_lines example_pb2 ''f.tsv'' example_validators 1
     [[''HEAD'', ''3.0''], [''SY01'', ''x'']] 0 (initial example_pb2 1))) = []" by code_simp
  from terminal_flush[OF h0] have
    "blocks (parse_file example_pb2 ''f.tsv'' example_validators 1 []) = [new_block example_pb2 1]"
    by (simp add: initial_def)
  moreover from terminal_flush[OF h1] y1 have
    "length (blocks (parse_file example_pb2 ''f.tsv'' example_validators 1
     [[''HEAD'', ''3.0''], [''SY01'', ''x'']])) = 1" by simp
  ultimately show ?thesis using h0 by blast
qed

subsection \<open>The first Block\<close>

lemma head_rows_upper: "f \<in> set HEAD_ROWS \<Longrightarrow> upper f = f"
proof -
  have "list_all (\<lambda>f. upper f = f) HEAD_ROWS" by code_simp
  then show "f \<in> set HEAD_ROWS \<Longrightarrow> upper f = f" by (simp add: list_all_iff)
qed

lemma head_rows_not_foot: "f \<in> set HEAD_ROWS \<Longrightarrow> f \<notin> set FOOT_ROWS"
  by (auto simp: HEAD_ROWS_def FOOT_ROWS_def)

lemma get_row_object_rtype:
  "get_row_object pb fname rv ln n bn = Inr r \<Longrightarrow> ln \<noteq> [] \<and> rtype r = upper (hd ln)"
  by (auto simp: get_row_object_def split: list.splits sum.splits)

lemma head_foot_row_head:
  assumes "rt \<notin> set FOOT_ROWS" and "head_foot_row pb fname vs rt ln n st = (st', e)"
  shows "yielded st' = yielded st \<and> btype (current_block st') = HEAD pb \<and>
         number (current_block st') = number (current_block st) \<and>
         (rows (current_block st') = rows (current_block st) \<or>
          (\<exists>r. rows (current_block st') = rows (current_block st) @ [r] \<and>
             rtype r = upper (hd ln)))"
  using assms
  by (auto simp: head_foot_row_def getitem_def Let_def
           split: if_splits option.splits sum.splits dest: get_row_object_rtype)

lemma parse_line_head_block:
  assumes hd: "btype (current_block st) = HEAD pb"
    and pl: "parse_line pb fname vs fnum ln n st = (st', e)"
  shows "yielded st' = yielded st @ [current_block st] \<or>
         (yielded st' = yielded st \<and> btype (current_block st') = HEAD pb \<and>
          number (current_block st') = number (current_block st) \<and>
          (rows (current_block st') = rows (current_block st) \<or>
           (\<exists>r. rows (current_block st') = rows (current_block st) @ [r] \<and>
              rtype r \<in> set HEAD_ROWS)))"
proof (cases ln)
  case Nil
  with pl hd show ?thesis by (simp add: parse_line_def)
next
  case (Cons f fs)
  show ?thesis
  proof (cases "f \<in> set HEAD_ROWS")
    case False
    from parse_line_cases[OF pl] show ?thesis
    proof
      assume a: "yielded st' = yielded st \<and>
        appended pb fname vs ln n (rows (current_block st)) st' e"
      have "current_block st' = current_block st"
      proof (cases "startswith f COMMENT_SIGN")
        case True
        with pl Cons show ?thesis by (simp add: parse_line_def)
      next
        case nc: False
        obtain st1 e1 where tb: "try_body pb fname vs fnum ln n st = (st1, e1)" by force
        from pl Cons nc tb have c: "current_block st' = current_block st1" "yielded st' = yielded st1"
          by (auto simp: parse_line_def split: option.splits if_splits)
        show ?thesis
        proof (cases "get_row_type fname ln vs n")
          case (Inl x)
          with tb c show ?thesis by (simp add: try_body_def)
        next
          case (Inr rt)
          have eob: "is_end_of_block pb fname ln n (current_block st) = Inr True"
            using hd Cons False by (simp add: is_end_of_block_def)
          obtain st2 where st2: "st2 = st\<lparr>yielded := yielded st @ [current_block st],
                                   current_block := new_block pb fnum\<rparr>" by simp
          from tb Inr eob st2 have
            "head_foot_row pb fname vs rt ln n st2 = (st1, e1) \<or>
             body_row pb fname vs rt ln n st2 = (st1, e1)"
            by (simp add: try_body_def Let_def split: if_splits)
          then have "yielded st1 = yielded st2"
            using head_foot_row_cases body_row_cases by blast
          with st2 c a show ?thesis by simp
        qed
      qed
      with a hd show ?thesis by simp
    next
      assume "yielded st' = yielded st @ [current_block st] \<and> appended pb fname vs ln n [] st' e"
      then show ?thesis by simp
    qed
  next
    case True
    then have up: "upper f = f" and nf: "f \<notin> set FOOT_ROWS"
      by (simp_all add: head_rows_upper head_rows_not_foot)
    show ?thesis
    proof (cases "startswith f COMMENT_SIGN")
      case c: True
      with pl Cons hd show ?thesis by (simp add: parse_line_def)
    next
      case nc: False
      obtain st1 e1 where tb: "try_body pb fname vs fnum ln n st = (st1, e1)" by force
      from pl Cons nc tb have c: "current_block st' = current_block st1" "yielded st' = yielded st1"
        by (auto simp: parse_line_def split: option.splits if_splits)
      show ?thesis
      proof (cases "get_row_type fname ln vs n")
        case (Inl x)
        with tb c hd show ?thesis by (simp add: try_body_def)
      next
        case (Inr rt)
        with Cons up have rt: "rt = f" by (auto dest: get_row_type_Inr)
        have eob: "is_end_of_block pb fname ln n (current_block st) = Inr False"
          using hd Cons True by (simp add: is_end_of_block_def)
        from tb Inr eob rt True have "head_foot_row pb fname vs f ln n st = (st1, e1)"
          by (simp add: try_body_def Let_def)
        from head_foot_row_head[OF nf this] c Cons up True show ?thesis by auto
      qed
    qed
  qed
qed

lemma lead_inv_step:
  assumes inv: "lead_inv pb st" and pl: "parse_line pb fname vs fnum ln n st = (st', e)"
  shows "lead_inv pb st'"
proof (cases "yielded st = []")
  case False
  with parse_line_cases[OF pl] have "first_block st' = first_block st" "yielded st' \<noteq> []"
    by (auto simp: first_block_def)
  with inv show ?thesis by (simp add: lead_inv_def)
next
  case True
  with inv have hd: "btype (current_block st) = HEAD pb" by (simp add: lead_inv_def)
  from True have fb: "first_block st = current_block st" by (simp add: first_block_def)
  from parse_line_head_block[OF hd pl] show ?thesis
  proof
    assume "yielded st' = yielded st @ [current_block st]"
    with True have "first_block st' = first_block st" "yielded st' \<noteq> []"
      by (simp_all add: first_block_def)
    with inv show ?thesis by (simp add: lead_inv_def)
  next
    assume a: "yielded st' = yielded st \<and> btype (current_block st') = HEAD pb \<and>
          number (current_block st') = number (current_block st) \<and>
          (rows (current_block st') = rows (current_block st) \<or>
           (\<exists>r. rows (current_block st') = rows (current_block st) @ [r] \<and>
              rtype r \<in> set HEAD_ROWS))"
    with True have fb': "first_block st' = current_block st'" by (simp add: first_block_def)
    from a inv fb show ?thesis
      unfolding lead_inv_def fb' by (cases "rows (current_block st)") auto
  qed
qed

lemma lead_inv_loop:
  assumes "lead_inv pb st" and "parse_lines pb fname vs fnum lns n st = (st', e)"
  shows "lead_inv pb st'"
  using assms
proof (induction lns arbitrary: n st)
  case Nil
  then show ?case by simp
next
  case (Cons ln lns)
  obtain st1 e1 where pl: "parse_line pb fname vs fnum ln (Suc n) st = (st1, e1)" by force
  from lead_inv_step[OF Cons.prems(1) pl] have i1: "lead_inv pb st1" .
  show ?case
  proof (cases e1)
    case None
    with Cons.prems(2) pl have "parse_lines pb fname vs fnum lns (Suc n) st1 = (st', e)" by simp
    from Cons.IH[OF i1 this] show ?thesis .
  next
    case (Some x)
    with Cons.prems(2) pl i1 show ?thesis by simp
  qed
qed

lemma lead_inv_initial: "default_type pb = HEAD pb \<Longrightarrow> lead_inv pb (initial pb fnum)"
  by (simp add: lead_inv_def first_block_def initial_def new_block_def)

lemma leading_block_of_first_row:
  assumes enc: "default_type pb = HEAD pb"
    and first: "concat (map rows (blocks (parse_file pb fname vs fnum lns))) = r # rs"
    and cls: "rtype r \<notin> set HEAD_ROWS"
  shows "\<exists>b0 bs. blocks (parse_file pb fname vs fnum lns) = b0 # bs \<and>
           rows b0 = [] \<and> btype b0 = default_type pb \<and> number b0 = 0 \<and>
           concat (map rows bs) = r # rs"
proof -
  obtain st e where pl: "parse_lines pb fname vs fnum lns 0 (initial pb fnum) = (st, e)" by force
  from lead_inv_loop[OF lead_inv_initial[OF enc] pl] have inv: "lead_inv pb st" .
  from first obtain b0 bs where bl: "blocks (parse_file pb fname vs fnum lns) = b0 # bs"
    by (cases "blocks (parse_file pb fname vs fnum lns)") auto
  have fb: "b0 = first_block st"
  proof (cases e)
    case None
    with pl bl show ?thesis by (simp add: parse_file_def first_block_def)
  next
    case (Some x)
    with pl bl have "yielded st = b0 # bs" by (simp add: parse_file_def)
    then show ?thesis by (simp add: first_block_def)
  qed
  have empty: "rows b0 = []"
  proof (rule ccontr)
    assume ne: "rows b0 \<noteq> []"
    with first bl have "hd (rows b0) = r" by (cases "rows b0") auto
    with inv fb ne cls show False by (simp add: lead_inv_def)
  qed
  with inv fb enc first bl show ?thesis by (simp add: lead_inv_def)
qed

subsection \<open>Remarks on the boundary rules\<close>

text \<open>
  For a first field that is already in upper case, \<open>is_end_of_block\<close> decides on the
  classified row type.
\<close>

lemma is_end_of_block_upper_case:
  assumes "upper f = f"
  shows "is_end_of_block pb fname (f # fs) n cb =
           (if btype cb = HEAD pb then Inr (upper f \<notin> set HEAD_ROWS)
            else if btype cb = FOOT pb then Inr (upper f \<notin> set FOOT_ROWS)
            else if upper f \<in> set FOOT_ROWS then Inr True
            else (case get_block_number fname (f # fs) n of
                    Inl e \<Rightarrow> Inl e
                  | Inr k \<Rightarrow> Inr (number cb \<noteq> k)))"
  using assms by (simp add: is_end_of_block_def)

lemma foot_rows_upper: "f \<in> set FOOT_ROWS \<Longrightarrow> upper f = f"
proof -
  have "list_all (\<lambda>f. upper f = f) FOOT_ROWS" by code_simp
  then show "f \<in> set FOOT_ROWS \<Longrightarrow> upper f = f" by (simp add: list_all_iff)
qed

text \<open>
  A body row whose second field is present and is not an integer is logged as a
  \<open>RowValidationFailure\<close> with the upper-cased field, the row number and the fname name;
  it adds no Row and the loop goes on.
\<close>

lemma non_integer_block_id_skipped:
  assumes s: "item (f # fs) 1 = Some s" and ni: "py_int s = None"
    and known: "upper f \<in> set (map fst vs)"
    and body: "upper f \<notin> set HEAD_ROWS" "upper f \<notin> set FOOT_ROWS"
    and nc: "\<not> startswith f COMMENT_SIGN"
  shows "snd (parse_line pb fname vs fnum (f # fs) n st) = None \<and>
         logged (fst (parse_line pb fname vs fnum (f # fs) n st)) =
           logged st @ [RowValidationFailure n fname (BlockIdNotInteger (upper s) n)] \<and>
         all_rows (fst (parse_line pb fname vs fnum (f # fs) n st)) = all_rows st"
proof -
  have gb: "get_block_number fname (f # fs) n =
              Inl (RowValidationFailure n fname (BlockIdNotInteger (upper s) n))"
    using s ni by (rule get_block_number_not_integer)
  have nf: "f \<notin> set FOOT_ROWS" using body(2) foot_rows_upper by fastforce
  have rt: "get_row_type fname (f # fs) vs n = Inr (upper f)"
    using known by (simp add: get_row_type_def)
  show ?thesis
    using gb nf rt body nc
    by (simp add: parse_line_def try_body_def body_row_def is_end_of_block_def all_rows_def
          new_block_def Let_def)
qed

text \<open>
  With an encoding in which the type of a new Block is none of \<open>HEAD\<close>, \<open>BODY\<close> and
  \<open>FOOT\<close>, the new Block falls under the last rule of \<open>is_end_of_block\<close>, which reads a
  block number from every line that is not of \<open>FOOT_ROWS\<close>: the lines \<open>HEAD 3.0\<close> and
  \<open>SY01 x\<close> of the scenario are then rejected.
\<close>

lemma scenario_without_head_default:
  "map (\<lambda>b. map row_number (rows b))
     (blocks (parse_file (example_pb2\<lparr>HEAD := 3\<rparr>) ''f.tsv'' example_validators 1 scenario)) =
     [[], [3, 4], [5], [6]] \<and>
   errors (parse_file (example_pb2\<lparr>HEAD := 3\<rparr>) ''f.tsv'' example_validators 1 scenario) =
     [RowValidationFailure 1 ''f.tsv'' (BlockIdNotInteger ''3.0'' 1),
      RowValidationFailure 2 ''f.tsv'' (BlockIdNotInteger ''X'' 2)]"
  by code_simp

section \<open>The claims\<close>

text \<open>
  C1. The scenario of six lines \<open>HEAD 3.0\<close>, \<open>SY01 x\<close>, \<open>BODY01 1 foo\<close>,
  \<open>BODY01 1 bar\<close>, \<open>BODY01 2 baz\<close>, \<open>FOOT done\<close>. With the encoding that the source
  documents (a new Block's type reads \<open>HEAD\<close>), with the four row types in the table and
  with validators that accept the six lines (\<open>get_row_object\<close> returns the Rows
  \<open>r1\<close>, ..., \<open>r6\<close>), \<open>parse_file\<close> yields exactly four Blocks and then returns: a HEAD
  Block with version "3.0" and the Rows of lines 1 and 2, a BODY Block with number 1 and
  the Rows of lines 3 and 4, a BODY Block with number 2 and the Row of line 5, and a FOOT
  Block with the Row of line 6. Nothing is logged.
\<close>

theorem scenario_blocks:
  assumes enc: "head_is_default pb"
    and tab: "map_of vs ''HEAD'' = Some vh" "map_of vs ''SY01'' = Some vsy"
      "map_of vs ''BODY01'' = Some vb" "map_of vs ''FOOT'' = Some vf"
    and acc: "get_row_object pb fname vh [''HEAD'', ''3.0''] 1 (RowTypeName ''HEAD'') = Inr r1"
      "get_row_object pb fname vsy [''SY01'', ''x''] 2 (RowTypeName ''SY01'') = Inr r2"
      "get_row_object pb fname vb [''BODY01'', ''1'', ''foo''] 3 (BlockNumber 1) = Inr r3"
      "get_row_object pb fname vb [''BODY01'', ''1'', ''bar''] 4 (BlockNumber 1) = Inr r4"
      "get_row_object pb fname vb [''BODY01'', ''2'', ''baz''] 5 (BlockNumber 2) = Inr r5"
      "get_row_object pb fname vf [''FOOT'', ''done''] 6 (RowTypeName ''FOOT'') = Inr r6"
  shows "parse_file pb fname vs fnum scenario =
    \<lparr>blocks =
       [\<lparr>btype = HEAD pb, number = 0, version = ''3.0'', file_number = fnum, rows = [r1, r2]\<rparr>,
        \<lparr>btype = BODY pb, number = 1, version = [], file_number = fnum, rows = [r3, r4]\<rparr>,
        \<lparr>btype = BODY pb, number = 2, version = [], file_number = fnum, rows = [r5]\<rparr>,
        \<lparr>btype = FOOT pb, number = 0, version = [], file_number = fnum, rows = [r6]\<rparr>],
     errors = [], raised = None\<rparr>"
proof -
  have keys: "''HEAD'' \<in> fst ` set vs" "''SY01'' \<in> fst ` set vs" "''BODY01'' \<in> fst ` set vs"
    "''FOOT'' \<in> fst ` set vs"
    using tab by (auto dest: map_of_key)
  from enc have e: "default_type pb = 0" "HEAD pb = 0" "BODY pb \<noteq> 0" "FOOT pb \<noteq> 0"
    "BODY pb \<noteq> FOOT pb" "FOOT pb \<noteq> BODY pb"
    by (auto simp: head_is_default_def)
  show ?thesis
    using keys tab acc e
    by (simp add: parse_file_def scenario_def initial_def new_block_def parse_line_def
        try_body_def get_row_type_def is_end_of_block_def head_foot_row_def body_row_def
        getitem_def get_block_number_def item_def startswith_def COMMENT_SIGN_def
        HEAD_ROWS_def FOOT_ROWS_def upper_scenario py_int_scenario Let_def
        numeral_2_eq_2[symmetric])
qed

theorem scenario_blocks_witness:
  "head_is_default example_pb2 \<and>
   map btype (blocks (parse_file example_pb2 ''f.tsv'' example_validators 1 scenario)) =
     [HEAD example_pb2, BODY example_pb2, BODY example_pb2, FOOT example_pb2] \<and>
   map number (blocks (parse_file example_pb2 ''f.tsv'' example_validators 1 scenario)) =
     [0, 1, 2, 0] \<and>
   map version (blocks (parse_file example_pb2 ''f.tsv'' example_validators 1 scenario)) =
     [''3.0'', [], [], []] \<and>
   map length (map rows (blocks (parse_file example_pb2 ''f.tsv'' example_validators 1 scenario))) =
     [2, 2, 1, 1]"
proof -
  have enc: "head_is_default example_pb2"
    by (simp add: head_is_default_def example_pb2_def)
  have tab:
    "map_of example_validators ''HEAD'' = Some (the (map_of example_validators ''HEAD''))"
    "map_of example_validators ''SY01'' = Some (the (map_of example_validators ''SY01''))"
    "map_of example_validators ''BODY01'' = Some (the (map_of example_validators ''BODY01''))"
    "map_of example_validators ''FOOT'' = Some (the (map_of example_validators ''FOOT''))"
    by (simp_all add: example_validators_def)
  have acc:
    "get_row_object example_pb2 ''f.tsv'' (the (map_of example_validators ''HEAD''))
       [''HEAD'', ''3.0''] 1 (RowTypeName ''HEAD'') =
     Inr (projr (get_row_object example_pb2 ''f.tsv'' (the (map_of example_validators ''HEAD''))
       [''HEAD'', ''3.0''] 1 (RowTypeName ''HEAD'')))"
    "get_row_object example_pb2 ''f.tsv'' (the (map_of example_validators ''SY01''))
       [''SY01'', ''x''] 2 (RowTypeName ''SY01'') =
     Inr (projr (get_row_object example_pb2 ''f.tsv'' (the (map_of example_validators ''SY01''))
       [''SY01'', ''x''] 2 (RowTypeName ''SY01'')))"
    "get_row_object example_pb2 ''f.tsv'' (the (map_of example_validators ''BODY01''))
       [''BODY01'', ''1'', ''foo''] 3 (BlockNumber 1) =
     Inr (projr (get_row_object example_pb2 ''f.tsv'' (the (map_of example_validators ''BODY01''))
       [''BODY01'', ''1'', ''foo''] 3 (BlockNumber 1)))"
    "get_row_object example_pb2 ''f.tsv'' (the (map_of example_validators ''BODY01''))
       [''BODY01'', ''1'', ''bar''] 4 (BlockNumber 1) =
     Inr (projr (get_row_object example_pb2 ''f.tsv'' (the (map_of example_validators ''BODY01''))
       [''BODY01'', ''1'', ''bar''] 4 (BlockNumber 1)))"
    "get_row_object example_pb2 ''f.tsv'' (the (map_of example_validators ''BODY01''))
       [''BODY01'', ''2'', ''baz''] 5 (BlockNumber 2) =
     Inr (projr (get_row_object example_pb2 ''f.tsv'' (the (map_of example_validators ''BODY01''))
       [''BODY01'', ''2'', ''baz''] 5 (BlockNumber 2)))"
    "get_row_object example_pb2 ''f.tsv'' (the (map_of example_validators ''FOOT''))
       [''FOOT'', ''done''] 6 (RowTypeName ''FOOT'') =
     Inr (projr (get_row_object example_pb2 ''f.tsv'' (the (map_of example_validators ''FOOT''))
       [''FOOT'', ''done''] 6 (RowTypeName ''FOOT'')))"
    by code_simp+
  show ?thesis
    using enc scenario_blocks[OF enc tab acc, of 1] by simp
qed




text \<open>
  C3. An empty line (no fields) is not reported and skipped: the comment test at line
  161 reads \<open>line[0]\<close> outside the \<open>try\<close> statement, so \<open>IndexError\<close> ends the
  generator before \<open>_get_row_type\<close> can raise its "empty Records" failure. Here the
  HEAD Block that was open is never yielded and nothing is logged.
\<close>

theorem empty_line_raises:
  "parse_file example_pb2 ''f.tsv'' example_validators 1
     [[''HEAD'', ''3.0''], [], [''SY01'', ''x'']] =
   \<lparr>blocks = [], errors = [], raised = Some IndexError\<rparr>"
  by code_simp

text \<open>
  C2. The boundary rules are not applied to the upper-cased row type: \<open>is_end_of_block\<close>
  compares \<open>line[0]\<close> as it stands in the fname with \<open>HEAD_ROWS\<close> and \<open>FOOT_ROWS\<close>,
  while \<open>_get_row_type\<close> and the HEAD/FOOT test of \<open>parse_file\<close> use the upper-cased
  field. The line \<open>sy01 x\<close> is classified as the HEAD-class row type \<open>SY01\<close>, yet it
  closes the open HEAD Block: the fname \<open>HEAD 3.0\<close>, \<open>sy01 x\<close> gives two Blocks of one Row
  each, where \<open>HEAD 3.0\<close>, \<open>SY01 x\<close> gives one Block of two Rows.
\<close>

theorem lower_case_row_type_closes_head_block:
  "get_row_type ''f.tsv'' [''sy01'', ''x''] example_validators 2 = Inr ''SY01'' \<and>
   ''SY01'' \<in> set HEAD_ROWS \<and>
   is_end_of_block example_pb2 ''f.tsv'' [''sy01'', ''x''] 2
     (new_block example_pb2 1\<lparr>btype := HEAD example_pb2\<rparr>) = Inr True \<and>
   map length (map rows (blocks (parse_file example_pb2 ''f.tsv'' example_validators 1
     [[''HEAD'', ''3.0''], [''sy01'', ''x'']]))) = [1, 1] \<and>
   map length (map rows (blocks (parse_file example_pb2 ''f.tsv'' example_validators 1
     [[''HEAD'', ''3.0''], [''SY01'', ''x'']]))) = [2]"
  by code_simp

text \<open>
  C4. A body row without a second field does not raise a row-validation failure: in
  \<open>get_block_number\<close> the handler of \<open>IndexError\<close> formats the message with
  \<open>line[1]\<close> and raises \<open>IndexError\<close> again, which \<open>parse_file\<close> does not catch.
  The generator ends at the line \<open>BODY01\<close>: nothing is logged, the open Block with the
  Row of the line before is never yielded, and the line after is never read.
\<close>

theorem missing_block_id_raises:
  "get_block_number ''f.tsv'' [''BODY01''] 2 = Inl IndexError \<and>
   raised (parse_file example_pb2 ''f.tsv'' example_validators 1
     [[''BODY01'', ''1'', ''foo''], [''BODY01''], [''BODY01'', ''1'', ''bar'']]) = Some IndexError \<and>
   errors (parse_file example_pb2 ''f.tsv'' example_validators 1
     [[''BODY01'', ''1'', ''foo''], [''BODY01''], [''BODY01'', ''1'', ''bar'']]) = [] \<and>
   map length (map rows (blocks (parse_file example_pb2 ''f.tsv'' example_validators 1
     [[''BODY01'', ''1'', ''foo''], [''BODY01''], [''BODY01'', ''1'', ''bar'']]))) = [0]"
  by code_simp

text \<open>
  C7. A line whose upper-cased first field is not a key of the row validators table
  (whether or not it is in \<open>HEAD_ROWS\<close> or \<open>FOOT_ROWS\<close>) leaves the open Block and the
  yielded Blocks as they are and lets the loop go on; and no Row of any Block that
  \<open>parse_file\<close> yields carries the number of such a line.
\<close>

theorem unknown_row_type_ignored:
  assumes "upper f \<notin> set (map fst vs)"
  shows "current_block (fst (parse_line pb fname vs fnum (f # fs) n st)) = current_block st \<and>
         yielded (fst (parse_line pb fname vs fnum (f # fs) n st)) = yielded st \<and>
         snd (parse_line pb fname vs fnum (f # fs) n st) = None \<and>
         (\<forall>lns i. i < length lns \<and> lns ! i = f # fs \<longrightarrow>
            (\<forall>b \<in> set (blocks (parse_file pb fname vs fnum lns)).
               \<forall>r \<in> set (rows b). row_number r \<noteq> Suc i))"
proof -
  have "\<forall>lns i. i < length lns \<and> lns ! i = f # fs \<longrightarrow>
            (\<forall>b \<in> set (blocks (parse_file pb fname vs fnum lns)).
               \<forall>r \<in> set (rows b). row_number r \<noteq> Suc i)"
  proof (intro allI impI ballI)
    fix lns i b r
    assume i: "i < length lns \<and> lns ! i = f # fs"
      and b: "b \<in> set (blocks (parse_file pb fname vs fnum lns))"
      and r: "r \<in> set (rows b)"
    from parse_file_rows_segment[OF b] r
    have "built_from pb fname vs (lns ! (row_number r - 1)) (row_number r) r" by auto
    from built_from_known[OF this]
    have known: "upper (hd (lns ! (row_number r - 1))) \<in> set (map fst vs)" by simp
    show "row_number r \<noteq> Suc i"
    proof
      assume "row_number r = Suc i"
      with known i have "upper f \<in> set (map fst vs)" by simp
      with assms show False by simp
    qed
  qed
  with parse_line_unknown[OF assms, of pb "fname" fnum fs n st] show ?thesis by simp
qed

theorem unknown_row_type_ignored_witness:
  "upper ''zz99'' \<notin> set (map fst example_validators) \<and>
   current_block (fst (parse_line example_pb2 ''f.tsv'' example_validators 1
       [''zz99'', ''1'', ''x''] 2
       \<lparr>current_block = new_block example_pb2 1\<lparr>btype := BODY example_pb2, number := 1\<rparr>,
        yielded = [], logged = []\<rparr>)) =
     new_block example_pb2 1\<lparr>btype := BODY example_pb2, number := 1\<rparr> \<and>
   map row_number (concat (map rows (blocks (parse_file example_pb2 ''f.tsv'' example_validators 1
       [[''HEAD'', ''3.0''], [''zz99'', ''1'', ''x''], [''SY01'', ''x'']])))) = [1, 3]"
proof -
  have h: "upper ''zz99'' \<notin> set (map fst example_validators)" by code_simp
  have v: "map row_number (concat (map rows (blocks (parse_file example_pb2 ''f.tsv''
       example_validators 1 [[''HEAD'', ''3.0''], [''zz99'', ''1'', ''x''], [''SY01'', ''x'']])))) =
       [1, 3]" by code_simp
  from unknown_row_type_ignored[OF h, of example_pb2 "''f.tsv''" 1 "[''1'', ''x'']" 2
      "\<lparr>current_block = new_block example_pb2 1\<lparr>btype := BODY example_pb2, number := 1\<rparr>,
        yielded = [], logged = []\<rparr>"] h v
  show ?thesis by simp
qed

text \<open>
  C10. Every Row of every yielded Block is the result of \<open>get_row_object\<close> on its source
  line, which hands its \<open>block_number\<close> argument to each \<open>validate_value\<close>: for a row
  type of \<open>HEAD_ROWS\<close> or \<open>FOOT_ROWS\<close> that argument is the row type, a string; for any
  other row it is the integer read from the second field of the line.
\<close>

theorem validators_block_argument:
  assumes "b \<in> set (blocks (parse_file pb fname vs fnum lns))" and "r \<in> set (rows b)"
  shows "\<exists>f fs rv. lns ! (row_number r - 1) = f # fs \<and> map_of vs (upper f) = Some rv \<and>
           (if upper f \<in> set HEAD_ROWS \<or> upper f \<in> set FOOT_ROWS
            then get_row_object pb fname rv (f # fs) (row_number r) (RowTypeName (upper f)) = Inr r
            else \<exists>s k. item (f # fs) 1 = Some s \<and> py_int s = Some k \<and>
                   get_row_object pb fname rv (f # fs) (row_number r) (BlockNumber k) = Inr r)"
proof -
  from parse_file_rows_segment[OF assms(1)] assms(2)
  have bf: "built_from pb fname vs (lns ! (row_number r - 1)) (row_number r) r" by auto
  then obtain f fs where ln: "lns ! (row_number r - 1) = f # fs"
    by (cases "lns ! (row_number r - 1)") (auto simp: built_from_def)
  from bf ln obtain rv where rv: "map_of vs (upper f) = Some rv"
    by (auto simp: built_from_def split: option.splits)
  show ?thesis
  proof (cases "upper f \<in> set HEAD_ROWS \<or> upper f \<in> set FOOT_ROWS")
    case True
    with bf ln rv show ?thesis by (auto simp: built_from_def)
  next
    case False
    with bf ln rv obtain k where k: "get_block_number fname (f # fs) (row_number r) = Inr k"
      "get_row_object pb fname rv (f # fs) (row_number r) (BlockNumber k) = Inr r"
      by (auto simp: built_from_def split: sum.splits)
    from k(1) obtain s where "item (f # fs) 1 = Some s" "py_int s = Some k"
      by (auto simp: get_block_number_Inr)
    with False ln rv k(2) show ?thesis by auto
  qed
qed

theorem validators_block_argument_witness:
  "map (\<lambda>r. map string_value (cells r))
     (concat (map rows (blocks (parse_file example_pb2 ''f.tsv'' echo_validators 1
        [[''HEAD'', ''3.0''], [''AS01'', ''1'', ''x'']])))) =
     [[[''row type HEAD'']], [[''block 1'']]] \<and>
   get_row_object example_pb2 ''f.tsv'' [Some (echo_validator ''RecordType'')]
     [''AS01'', ''1'', ''x''] 2 (BlockNumber 1) =
   Inr (rows (blocks (parse_file example_pb2 ''f.tsv'' echo_validators 1
        [[''HEAD'', ''3.0''], [''AS01'', ''1'', ''x'']]) ! 1) ! 0)"
proof -
  let ?lns = "[[''HEAD'', ''3.0''], [''AS01'', ''1'', ''x'']]"
  let ?P = "parse_file example_pb2 ''f.tsv'' echo_validators 1 ?lns"
  let ?r = "rows (blocks ?P ! 1) ! 0"
  have b: "blocks ?P ! 1 \<in> set (blocks ?P)" by code_simp
  have r: "?r \<in> set (rows (blocks ?P ! 1))" by code_simp
  have n: "row_number ?r = 2" by code_simp
  have up: "upper ''AS01'' = ''AS01''" by code_simp
  have cls: "''AS01'' \<notin> set HEAD_ROWS" "''AS01'' \<notin> set FOOT_ROWS" by code_simp+
  have tab: "map_of echo_validators ''AS01'' = Some [Some (echo_validator ''RecordType'')]"
    by (simp add: echo_validators_def)
  have pi: "py_int ''1'' = Some 1" by code_simp
  have v: "map (\<lambda>r. map string_value (cells r)) (concat (map rows (blocks ?P))) =
     [[[''row type HEAD'']], [[''block 1'']]]" by code_simp
  from validators_block_argument[OF b r]
  obtain f fs rv where
    ln: "?lns ! (row_number ?r - 1) = f # fs" and rv: "map_of echo_validators (upper f) = Some rv"
    and arg: "if upper f \<in> set HEAD_ROWS \<or> upper f \<in> set FOOT_ROWS
            then get_row_object example_pb2 ''f.tsv'' rv (f # fs) (row_number ?r)
                   (RowTypeName (upper f)) = Inr ?r
            else \<exists>s k. item (f # fs) 1 = Some s \<and> py_int s = Some k \<and>
                   get_row_object example_pb2 ''f.tsv'' rv (f # fs) (row_number ?r)
                     (BlockNumber k) = Inr ?r"
    by blast
  from ln n have f: "f = ''AS01''" "fs = [''1'', ''x'']" by simp_all
  from rv f up tab have rv': "rv = [Some (echo_validator ''RecordType'')]" by simp
  from arg f up cls n rv' pi
  have "get_row_object example_pb2 ''f.tsv'' [Some (echo_validator ''RecordType'')]
     [''AS01'', ''1'', ''x''] 2 (BlockNumber 1) = Inr ?r"
    by (simp add: item_def)
  with v show ?thesis by blast
qed

text \<open>
  C8, as the code has it. Every Cell of every Row of every yielded Block was built for a
  column of the row's validator list whose validator returned a value that is neither
  \<open>None\<close> nor the empty string; it is the Cell that \<open>get_cell_object\<close> returns for that
  validator and that value: it carries the validator's name and declared cell type; its
  values lie in the repeated field of that type and in no other, and they are the items
  of the returned value, in order (the value itself for a scalar, the elements of a
  list), each as the runtime's check of that field accepts it. So the Cell holds as many
  values as the validator returned, and none exactly when its validator returned the
  empty list.
\<close>

theorem emitted_cells:
  assumes "b \<in> set (blocks (parse_file pb fname vs fnum lns))"
    and "r \<in> set (rows b)" and "c \<in> set (cells r)"
  shows "well_typed c \<and>
         (\<exists>rv v x d bn.
            map_of vs (rtype r) = Some rv \<and>
            (Some v, x) \<in> set (zip rv (lns ! (row_number r - 1))) \<and>
            validate_value v x (row_number r) fname bn = Inr d \<and>
            d \<noteq> PNone \<and> d \<noteq> PStr [] \<and>
            get_cell_object pb v d = Inr c \<and>
            name c = cell_name v \<and> cell_type c = get_cell_type v \<and>
            carries pb c d \<and>
            value_count c = data_count d \<and>
            (value_count c = 0 \<longleftrightarrow> d = PList []))"
proof -
  from parse_file_rows_segment[OF assms(1)] assms(2)
  have "built_from pb fname vs (lns ! (row_number r - 1)) (row_number r) r" by auto
  from built_from_cells[OF this assms(3)] obtain rv v x d bn where
    a: "map_of vs (rtype r) = Some rv" "(Some v, x) \<in> set (zip rv (lns ! (row_number r - 1)))"
       "validate_value v x (row_number r) fname bn = Inr d" "d \<noteq> PNone" "d \<noteq> PStr []"
    and c: "get_cell_object pb v d = Inr c"
    by blast
  from get_cell_object_Inr[OF c] have
    g: "name c = cell_name v" "cell_type c = get_cell_type v" "well_typed c"
       "value_count c = data_count d" "carries pb c d" by simp_all
  from g(4) have z: "value_count c = 0 \<longleftrightarrow> d = PList []" by (simp add: data_count_0)
  have "\<exists>rv v x d bn.
            map_of vs (rtype r) = Some rv \<and>
            (Some v, x) \<in> set (zip rv (lns ! (row_number r - 1))) \<and>
            validate_value v x (row_number r) fname bn = Inr d \<and>
            d \<noteq> PNone \<and> d \<noteq> PStr [] \<and>
            get_cell_object pb v d = Inr c \<and>
            name c = cell_name v \<and> cell_type c = get_cell_type v \<and>
            carries pb c d \<and>
            value_count c = data_count d \<and>
            (value_count c = 0 \<longleftrightarrow> d = PList [])"
    using a c g z
    by (intro exI[of _ rv] exI[of _ v] exI[of _ x] exI[of _ d] exI[of _ bn]) simp
  with g(3) show ?thesis by (rule conjI)
qed

theorem emitted_cells_witness:
  "cells (rows (blocks (parse_file example_pb2 ''f.tsv'' example_validators 1
       scenario) ! 1) ! 0) ! 1 =
     \<lparr>name = ''Title'', cell_type = STRING, string_value = [''foo''], integer_value = [],
      decimal_value = [], boolean_value = []\<rparr> \<and>
   well_typed (cells (rows (blocks (parse_file example_pb2 ''f.tsv'' example_validators 1
       scenario) ! 1) ! 0) ! 1) \<and>
   value_count (cells (rows (blocks (parse_file example_pb2 ''f.tsv'' example_validators 1
       scenario) ! 1) ! 0) ! 1) = 1 \<and>
   validate_value (string_validator ''Title'') ''foo'' 3 ''f.tsv'' (BlockNumber 1) =
     Inr (PStr ''foo'') \<and>
   carries example_pb2 (cells (rows (blocks (parse_file example_pb2 ''f.tsv''
       example_validators 1 scenario) ! 1) ! 0) ! 1) (PStr ''foo'')"
proof -
  let ?P = "parse_file example_pb2 ''f.tsv'' example_validators 1 scenario"
  let ?b = "blocks ?P ! 1"
  let ?r = "rows ?b ! 0"
  let ?c = "cells ?r ! 1"
  have b: "?b \<in> set (blocks ?P)" by code_simp
  have r: "?r \<in> set (rows ?b)" by code_simp
  have c: "?c \<in> set (cells ?r)" by code_simp
  have v: "?c = \<lparr>name = ''Title'', cell_type = STRING, string_value = [''foo''],
      integer_value = [], decimal_value = [], boolean_value = []\<rparr>" by code_simp
  have n: "value_count ?c = 1" by code_simp
  have d: "validate_value (string_validator ''Title'') ''foo'' 3 ''f.tsv'' (BlockNumber 1) =
     Inr (PStr ''foo'')" by (simp add: string_validator_def)
  have k: "carries example_pb2 ?c (PStr ''foo'')" by code_simp
  from emitted_cells[OF b r c] have "well_typed ?c" by blast
  with n v d k show ?thesis by blast
qed

text \<open>
  C8 as stated fails: a validator that returns the empty list passes the test
  \<open>cell_parsed_data not in (None, '')\<close>, and \<open>get_cell_object\<close> takes a list as it is,
  so the Row carries a Cell without any value.
\<close>

theorem cell_without_values:
  "parse_file example_pb2 ''f.tsv'' [(''HEAD'', [Some (no_values_validator ''RecordType'')])] 1
     [[''HEAD'', ''3.0'']] =
   \<lparr>blocks =
      [\<lparr>btype = 0, number = 0, version = ''3.0'', file_number = 1,
        rows = [\<lparr>rtype = ''HEAD'', row_number = 1,
                 cells = [\<lparr>name = ''RecordType'', cell_type = STRING,
                           string_value = [], integer_value = [],
                           decimal_value = [], boolean_value = []\<rparr>]\<rparr>]\<rparr>],
    errors = [], raised = None\<rparr>"
  by code_simp

text \<open>
  C5. Not every input gets its terminal flush: \<open>yield current_block\<close> at line 194
  is reached only when the loop ends normally. An exception that is not a
  \<open>ValidationError\<close> leaves the generator from inside the loop, and the Block that was
  open is never yielded. Here a single HEAD Block with two Rows is followed by an empty
  line, whose \<open>line[0]\<close> at line 161 raises \<open>IndexError\<close>: \<open>parse_file\<close> yields no
  Block at all, where the same lines without the empty one yield the one Block. A file
  that is a single empty line, and a file that is a single \<open>HEAD\<close> line without a
  version field (\<open>line[1]\<close> at line 177), yield no Block either.
\<close>

theorem open_block_lost_on_exception:
  "parse_file example_pb2 ''f.tsv'' example_validators 1
     [[''HEAD'', ''3.0''], [''SY01'', ''x''], []] =
     \<lparr>blocks = [], errors = [], raised = Some IndexError\<rparr> \<and>
   map length (map rows (blocks (parse_file example_pb2 ''f.tsv'' example_validators 1
     [[''HEAD'', ''3.0''], [''SY01'', ''x'']]))) = [2] \<and>
   parse_file example_pb2 ''f.tsv'' example_validators 1 [[]] =
     \<lparr>blocks = [], errors = [], raised = Some IndexError\<rparr> \<and>
   parse_file example_pb2 ''f.tsv'' example_validators 1 [[''HEAD'']] =
     \<lparr>blocks = [], errors = [], raised = Some IndexError\<rparr>"
  by code_simp

text \<open>
  C9. Let a new Block's type read \<open>HEAD\<close>, as the source documents. If the first Row of
  the output (the Row of the first line that survives) is of a type in \<open>FOOT_ROWS\<close>, or
  is a body row whose block number is not 0, then the output starts with a Block that
  has no Rows, the default type and the number 0, and the Row lies in a later Block.
  (The lemma \<open>leading_block_of_first_row\<close> shows the same for a body row with block
  number 0.)
\<close>

theorem leading_empty_block:
  assumes "default_type pb = HEAD pb"
    and "concat (map rows (blocks (parse_file pb fname vs fnum lns))) = r # rs"
    and "rtype r \<in> set FOOT_ROWS \<or>
         (rtype r \<notin> set HEAD_ROWS \<and> rtype r \<notin> set FOOT_ROWS \<and>
          (\<exists>k. get_block_number fname (lns ! (row_number r - 1)) (row_number r) = Inr k \<and>
               k \<noteq> 0))"
  shows "\<exists>b0 bs. blocks (parse_file pb fname vs fnum lns) = b0 # bs \<and>
           rows b0 = [] \<and> btype b0 = default_type pb \<and> number b0 = 0 \<and>
           concat (map rows bs) = r # rs"
proof -
  from assms(3) have "rtype r \<notin> set HEAD_ROWS"
    using head_rows_not_foot by blast
  from leading_block_of_first_row[OF assms(1) assms(2) this] show ?thesis .
qed

theorem leading_empty_block_witness:
  "default_type example_pb2 = HEAD example_pb2 \<and>
   rows (hd (blocks (parse_file example_pb2 ''f.tsv'' example_validators 1
      [[''# comment''], [''BODY01'', ''2'', ''foo'']]))) = [] \<and>
   btype (hd (blocks (parse_file example_pb2 ''f.tsv'' example_validators 1
      [[''# comment''], [''BODY01'', ''2'', ''foo'']]))) = default_type example_pb2 \<and>
   number (hd (blocks (parse_file example_pb2 ''f.tsv'' example_validators 1
      [[''# comment''], [''BODY01'', ''2'', ''foo'']]))) = 0 \<and>
   map row_number (concat (map rows (tl (blocks (parse_file example_pb2 ''f.tsv''
      example_validators 1 [[''# comment''], [''BODY01'', ''2'', ''foo'']]))))) = [2]"
proof -
  let ?lns = "[[''# comment''], [''BODY01'', ''2'', ''foo'']]"
  let ?P = "parse_file example_pb2 ''f.tsv'' example_validators 1 ?lns"
  let ?r = "hd (concat (map rows (blocks ?P)))"
  have enc: "default_type example_pb2 = HEAD example_pb2" by (simp add: example_pb2_def)
  have first: "concat (map rows (blocks ?P)) = ?r # []" by code_simp
  have t1: "rtype ?r \<notin> set HEAD_ROWS" by code_simp
  have t2: "rtype ?r \<notin> set FOOT_ROWS" by code_simp
  have k: "get_block_number ''f.tsv'' (?lns ! (row_number ?r - 1)) (row_number ?r) = Inr 2"
    by code_simp
  have cls: "rtype ?r \<in> set FOOT_ROWS \<or>
         (rtype ?r \<notin> set HEAD_ROWS \<and> rtype ?r \<notin> set FOOT_ROWS \<and>
          (\<exists>k. get_block_number ''f.tsv'' (?lns ! (row_number ?r - 1)) (row_number ?r) = Inr k \<and>
               k \<noteq> 0))"
    using t1 t2 k by auto
  have n: "map row_number [?r] = [2]" by code_simp
  from leading_empty_block[OF enc first cls] obtain b0 bs where
    bl: "blocks ?P = b0 # bs" and e: "rows b0 = []" "btype b0 = default_type example_pb2"
      "number b0 = 0" and rest: "concat (map rows bs) = [?r]"
    by blast
  from bl rest n have "map row_number (concat (map rows (tl (blocks ?P)))) = [2]" by simp
  with bl e enc show ?thesis by simp
qed

end
